theory Spec2Isabelle
  imports Main
begin

section \<open>Data model of the course planner (class App of script.js)\<close>

text \<open>
  A coordinate is a JavaScript number. The course operations only store, copy and
  concatenate coordinates, they never compute with them, so the number type is the
  type parameter \<open>'n\<close> of the model. A point is the object \<open>{lat, lng}\<close>.
\<close>

record 'n latlng =
  lat :: 'n
  lng :: 'n

text \<open>An element of \<open>#segments\<close>: the object \<open>{ coords: [{lat,lng}...] }\<close>.\<close>

record 'n segment =
  coords :: "'n latlng list"

text \<open>
  The \<open>google.maps.Polyline\<close> held in \<open>#polyline\<close>: the path it was constructed
  with, and whether its map is still the one it was constructed with, the value of
  \<open>#map\<close> at that moment (\<open>setMap(null)\<close> detaches it). Stroke colour, opacity and
  weight are cosmetic and left out.
\<close>

record 'n polyline_obj =
  pl_path :: "'n latlng list"
  pl_map :: bool

text \<open>
  The private fields of \<open>App\<close> that hold the course. \<open>null\<close> is \<open>None\<close>.
  \<open>#startMarker\<close> is the position of the marker labelled S that the field holds.
  \<open>#map\<close>, \<open>#mapZoomLevel\<close> and \<open>#directionsService\<close> are handles of the map
  library and are not part of the course; whether \<open>#map\<close> has been assigned is part
  of the state of the page (\<open>hasMap\<close> below).
\<close>

record 'n App =
  startLatLng :: "'n latlng option"
  lastPointLatLng :: "'n latlng option"
  startMarker :: "'n latlng option"
  segments :: "'n segment list"
  polyline :: "'n polyline_obj option"
  pathCoords :: "'n latlng list"

text \<open>The field initialisers of the class.\<close>

definition initApp :: "'n App" where
  "initApp = \<lparr>startLatLng = None, lastPointLatLng = None, startMarker = None,
     segments = [], polyline = None, pathCoords = []\<rparr>"

datatype travelMode = BICYCLING | WALKING

text \<open>The request object handed to \<open>DirectionsService.route\<close>.\<close>

record 'n request =
  origin :: "'n latlng"
  destination :: "'n latlng"
  travelMode :: travelMode

text \<open>
  What the routing service hands to the callback: \<open>result.routes[i].overview_path\<close>,
  and the status string. \<open>result\<close> may be \<open>null\<close> when the status is not \<open>OK\<close>.
\<close>

record 'n directions_route =
  overview_path :: "'n latlng list"

record 'n directions_result =
  routes :: "'n directions_route list"

text \<open>
  Exceptions. \<open>TypeError\<close>: reading a property of \<open>undefined\<close> or \<open>null\<close>.
  \<open>InvalidValueError\<close>: raised by the map library for a request without an origin.
  \<open>DOMException\<close>: anything the markup parser may throw.
\<close>

datatype js_error = TypeError | InvalidValueError | DOMException

section \<open>Path composition and drawing\<close>

text \<open>
  \<open>_rebuildPathFromSegments\<close>: without a start the path is emptied and nothing else is
  touched; otherwise the path is the start followed by \<open>seg.coords.slice(1)\<close> of every
  segment with at least one point, and \<open>#lastPointLatLng\<close> becomes its last point.
\<close>

definition rebuildPathFromSegments :: "'n App \<Rightarrow> 'n App" where
  "rebuildPathFromSegments a =
     (case startLatLng a of
        None \<Rightarrow> a\<lparr>pathCoords := []\<rparr>
      | Some s \<Rightarrow>
          (let path = foldl (\<lambda>path seg.
                         if length (coords seg) > 0 then path @ drop 1 (coords seg) else path)
                       [s] (segments a)
           in a\<lparr>pathCoords := path,
                lastPointLatLng :=
                  (if length path > 0 then Some (path ! (length path - 1))
                   else startLatLng a)\<rparr>))"

text \<open>
  \<open>_redrawPolyline\<close>: the old line, if any, is detached from the map; a new one is made
  only for a path of at least two points.
\<close>

definition redrawPolyline :: "'n App \<Rightarrow> 'n App" where
  "redrawPolyline a =
     (let a1 = (case polyline a of
                  None \<Rightarrow> a
                | Some pl \<Rightarrow> a\<lparr>polyline := Some (pl\<lparr>pl_map := False\<rparr>)\<rparr>)
      in if length (pathCoords a1) < 2 then a1
         else a1\<lparr>polyline := Some \<lparr>pl_path = pathCoords a1, pl_map = True\<rparr>\<rparr>)"

text \<open>
  \<open>_updateInfo\<close> and \<open>_alertDistance\<close> read the path and write only to the page
  (three text spans, a dialog); they change no field of \<open>App\<close> and have no equation here.
  Neither have \<open>_distanceBetween\<close> and \<open>_getTotalDistanceKm\<close>, which compute in
  double-precision floating point, and \<open>_downloadGpx\<close>, which prints doubles as text
  and changes no field of \<open>App\<close>.
\<close>

section \<open>Undo and reset\<close>

definition resetCourse :: "'n App \<Rightarrow> 'n App" where
  "resetCourse a =
     a\<lparr>segments := [], polyline := None, startMarker := None,
       startLatLng := None, lastPointLatLng := None, pathCoords := []\<rparr>"

definition undoLastSegment :: "'n App \<Rightarrow> 'n App" where
  "undoLastSegment a =
     (case startLatLng a of
        None \<Rightarrow> a
      | Some _ \<Rightarrow>
          if length (segments a) = 0 then resetCourse a
          else redrawPolyline (rebuildPathFromSegments (a\<lparr>segments := butlast (segments a)\<rparr>)))"

section \<open>Clicks and leg resolution\<close>

text \<open>
  \<open>_addRouteSegment\<close> builds the request and passes it, with a callback, to
  \<open>DirectionsService.route\<close>. The first argument is \<open>inputType.value\<close>, read from the
  page. The model returns the request that is now in flight. The map library raises
  for a request whose origin is \<open>null\<close>; no click of a run gets there
  (\<open>reachable_click_requests\<close> below).
\<close>

definition addRouteSegment ::
  "string \<Rightarrow> 'n latlng option \<Rightarrow> 'n latlng \<Rightarrow> js_error + 'n request" where
  "addRouteSegment inputTypeValue orig dest =
     (case orig of
        None \<Rightarrow> Inl InvalidValueError
      | Some p \<Rightarrow>
          Inr \<lparr>origin = p, destination = dest,
               travelMode = (if inputTypeValue = ''cycling'' then BICYCLING else WALKING)\<rparr>)"

text \<open>
  The callback of \<open>_addRouteSegment\<close>, run when the routing service answers the request
  for \<open>orig\<close> and \<open>dest\<close>. It raises before changing anything when the status is \<open>OK\<close>
  and there is no \<open>result.routes[0]\<close>.
\<close>

definition addRouteSegment_callback ::
  "'n latlng \<Rightarrow> 'n latlng \<Rightarrow> 'n directions_result option \<Rightarrow> string \<Rightarrow> 'n App
     \<Rightarrow> js_error + 'n App" where
  "addRouteSegment_callback orig dest result status a =
     (if status \<noteq> ''OK'' then
        (let segCoords = [orig, dest]
         in Inr (redrawPolyline (rebuildPathFromSegments
                  (a\<lparr>segments := segments a @ [\<lparr>coords = segCoords\<rparr>]\<rparr>))))
      else
        (case result of
           None \<Rightarrow> Inl TypeError
         | Some res \<Rightarrow>
             (case routes res of
                [] \<Rightarrow> Inl TypeError
              | r0 # _ \<Rightarrow>
                  (let segCoords = map (\<lambda>p. \<lparr>lat = lat p, lng = lng p\<rparr>) (overview_path r0)
                   in if length segCoords = 0 then Inr a
                      else Inr (redrawPolyline (rebuildPathFromSegments
                             (a\<lparr>segments := segments a @ [\<lparr>coords = segCoords\<rparr>]\<rparr>)))))))"

text \<open>
  \<open>_onMapClick\<close>: the new fields of \<open>App\<close>, and what the click issued: nothing for the
  click that sets the start, a request (or the exception of the map library) otherwise.
  \<open>#lastPointLatLng\<close> is moved to the clicked point before the request is made.
\<close>

definition onMapClick ::
  "string \<Rightarrow> 'n latlng \<Rightarrow> 'n App \<Rightarrow> 'n App \<times> (js_error + 'n request option)" where
  "onMapClick inputTypeValue latLng a =
     (case startLatLng a of
        None \<Rightarrow>
          (redrawPolyline
             (a\<lparr>startLatLng := Some latLng, lastPointLatLng := Some latLng,
                pathCoords := [latLng], startMarker := Some latLng\<rparr>),
           Inr None)
      | Some _ \<Rightarrow>
          (let orig = lastPointLatLng a; dest = latLng
           in (a\<lparr>lastPointLatLng := Some latLng\<rparr>,
               map_sum id Some (addRouteSegment inputTypeValue orig dest))))"

section \<open>Import of a track document\<close>

text \<open>
  The document the markup parser returns: elements with a tag name, attributes and
  children, and text nodes.
\<close>

datatype xml_node = Element string "(string \<times> string) list" "xml_node list" | Text string

text \<open>All elements with the tag name, in document order.\<close>

fun getElementsByTagName :: "string \<Rightarrow> xml_node \<Rightarrow> xml_node list" where
  "getElementsByTagName t (Text _) = []"
| "getElementsByTagName t (Element n atts cs) =
     (if n = t then [Element n atts cs] else []) @ concat (map (getElementsByTagName t) cs)"

fun getAttribute :: "string \<Rightarrow> xml_node \<Rightarrow> string option" where
  "getAttribute k (Text _) = None"
| "getAttribute k (Element n atts cs) = map_of atts k"

text \<open>\<open>parseFloat\<close> converts its argument to a string first; \<open>null\<close> becomes \<open>"null"\<close>.\<close>

definition toString :: "string option \<Rightarrow> string" where
  "toString v = (case v of None \<Rightarrow> ''null'' | Some s \<Rightarrow> s)"

text \<open>
  The three dialogs of \<open>_loadGpxFromText\<close>: there are no valid track points in the
  file; the course was loaded; an error occurred while reading the file.
\<close>

datatype alert = AlertNoTrackPoints | AlertLoaded | AlertReadError

text \<open>
  \<open>_loadGpxFromText\<close>. The markup parser (\<open>DOMParser.parseFromString\<close> with
  \<open>application/xml\<close>) and \<open>parseFloat\<close> belong to the platform and are parameters;
  the parser may return a document or throw. \<open>mapSet\<close> says whether \<open>#map\<close> has
  been assigned. The \<open>try\<close> block spans the whole body, so the \<open>catch\<close> branch
  (the dialog for a read error) is taken in two places: when the parser throws, before
  anything is changed; and at \<open>this.#map.panTo\<close>, the last call before the dialog of
  success, which raises a \<open>TypeError\<close> when \<open>#map\<close> is still \<open>undefined\<close>. By then the
  course has been replaced, the marker made and the line redrawn, and they stay so.
  The constructors and methods of the map library themselves are taken not to throw.
\<close>

definition loadGpxFromText ::
  "(string \<Rightarrow> js_error + xml_node) \<Rightarrow> (string \<Rightarrow> 'n) \<Rightarrow> bool \<Rightarrow> string \<Rightarrow> 'n App
     \<Rightarrow> 'n App \<times> alert" where
  "loadGpxFromText parseFromString parseFloat mapSet gpxText a =
     (case parseFromString gpxText of
        Inl err \<Rightarrow> (a, AlertReadError)
      | Inr xml \<Rightarrow>
          (let pts = getElementsByTagName ''trkpt'' xml
           in if length pts < 2 then (a, AlertNoTrackPoints)
              else
                (let cs = map (\<lambda>pt. \<lparr>lat = parseFloat (toString (getAttribute ''lat'' pt)),
                                      lng = parseFloat (toString (getAttribute ''lon'' pt))\<rparr>) pts;
                     a1 = resetCourse a;
                     a2 = a1\<lparr>pathCoords := cs,
                             startLatLng := Some (cs ! 0),
                             lastPointLatLng := Some (cs ! (length cs - 1)),
                             segments := [\<lparr>coords = cs\<rparr>],
                             startMarker := Some (cs ! 0)\<rparr>;
                     a3 = redrawPolyline a2
                 in if mapSet then (a3, AlertLoaded) else (a3, AlertReadError))))"

section \<open>The event loop\<close>

text \<open>
  Everything runs on one event queue. The state of the page is the \<open>App\<close>, the
  requests the routing service has not answered yet, each with the origin and
  destination its callback captured, and whether \<open>#map\<close> has been assigned.
  The constructor wires the buttons and the file input at once, but \<open>_loadMap\<close>, which
  assigns \<open>#map\<close> and \<open>#directionsService\<close> and registers the click listener of the
  map, runs later, from the callback of the geolocation request (or at once when there is
  no geolocation). Events: \<open>_loadMap\<close> has run; a click on the map (with the value of
  the type input at that moment); the answer of the routing service to the pending
  request number \<open>i\<close>; a click on undo; a click on reset; a file that has been read.
\<close>

record 'n sys =
  app :: "'n App"
  pending :: "'n request list"
  hasMap :: bool

datatype 'n event =
    MapLoaded
  | MapClick string "'n latlng"
  | RouteDone nat "'n directions_result option" string
  | UndoClick
  | ResetClick
  | GpxRead string

definition initSys :: "'n sys" where
  "initSys = \<lparr>app = initApp, pending = [], hasMap = False\<rparr>"

text \<open>
  One event. \<open>None\<close>: the event cannot happen (\<open>_loadMap\<close> runs once; a click on the
  map needs the listener that \<open>_loadMap\<close> registers; an answer needs its request to be
  pending). An exception in a handler ends the handler; the fields assigned before it
  keep their values.
\<close>

definition step ::
  "(string \<Rightarrow> js_error + xml_node) \<Rightarrow> (string \<Rightarrow> 'n) \<Rightarrow> 'n event \<Rightarrow> 'n sys
     \<Rightarrow> 'n sys option" where
  "step parseFromString parseFloat ev s =
     (case ev of
        MapLoaded \<Rightarrow>
          if hasMap s then None
          else Some \<lparr>app = app s, pending = pending s, hasMap = True\<rparr>
      | MapClick v p \<Rightarrow>
          if hasMap s then
            (case onMapClick v p (app s) of
               (a', Inr (Some r)) \<Rightarrow>
                 Some \<lparr>app = a', pending = pending s @ [r], hasMap = hasMap s\<rparr>
             | (a', _) \<Rightarrow> Some \<lparr>app = a', pending = pending s, hasMap = hasMap s\<rparr>)
          else None
      | RouteDone i result status \<Rightarrow>
          if i < length (pending s) then
            (let r = pending s ! i;
                 rest = take i (pending s) @ drop (Suc i) (pending s)
             in case addRouteSegment_callback (origin r) (destination r) result status (app s) of
                  Inl err \<Rightarrow> Some \<lparr>app = app s, pending = rest, hasMap = hasMap s\<rparr>
                | Inr a' \<Rightarrow> Some \<lparr>app = a', pending = rest, hasMap = hasMap s\<rparr>)
          else None
      | UndoClick \<Rightarrow>
          Some \<lparr>app = undoLastSegment (app s), pending = pending s, hasMap = hasMap s\<rparr>
      | ResetClick \<Rightarrow>
          Some \<lparr>app = resetCourse (app s), pending = pending s, hasMap = hasMap s\<rparr>
      | GpxRead text \<Rightarrow>
          Some \<lparr>app = fst (loadGpxFromText parseFromString parseFloat (hasMap s) text (app s)),
                pending = pending s, hasMap = hasMap s\<rparr>)"

fun exec ::
  "(string \<Rightarrow> js_error + xml_node) \<Rightarrow> (string \<Rightarrow> 'n) \<Rightarrow> 'n event list \<Rightarrow> 'n sys
     \<Rightarrow> 'n sys option" where
  "exec parseFromString parseFloat [] s = Some s"
| "exec parseFromString parseFloat (ev # evs) s =
     (case step parseFromString parseFloat ev s of
        None \<Rightarrow> None
      | Some s' \<Rightarrow> exec parseFromString parseFloat evs s')"

section \<open>The composed path as the specification words it\<close>

text \<open>
  The composed path in the words of the specification, for comparison with
  \<open>rebuildPathFromSegments\<close>: nothing without a start; otherwise the start followed by,
  for each segment in order, all of its points except the first.
\<close>

definition composePath_spec :: "'n latlng option \<Rightarrow> 'n segment list \<Rightarrow> 'n latlng list" where
  "composePath_spec start segs =
     (case start of
        None \<Rightarrow> []
      | Some s \<Rightarrow> s # concat (map (\<lambda>seg. tl (coords seg)) segs))"

text \<open>
  A run in which every answer of the routing service arrives while the start is set
  (none arrives after a reset, or after the undo that removed the start).
\<close>

fun answersWithStart ::
  "(string \<Rightarrow> js_error + xml_node) \<Rightarrow> (string \<Rightarrow> 'n) \<Rightarrow> 'n event list \<Rightarrow> 'n sys
     \<Rightarrow> bool" where
  "answersWithStart parseFromString parseFloat [] s = True"
| "answersWithStart parseFromString parseFloat (ev # evs) s =
     ((case ev of RouteDone i result status \<Rightarrow> startLatLng (app s) \<noteq> None | _ \<Rightarrow> True) \<and>
      (case step parseFromString parseFloat ev s of
         None \<Rightarrow> True
       | Some s' \<Rightarrow> answersWithStart parseFromString parseFloat evs s'))"

section \<open>Invariants of runs\<close>

text \<open>
  Two properties of the fields of \<open>App\<close> that are proved below for the states of a run.
  \<open>anchored\<close>: the last point and the path are there exactly when the start is.
  \<open>coherent\<close>: a store without a start has no segments, and the stored path is the
  composition of the stored start and segments.
\<close>

definition anchored :: "'n App \<Rightarrow> bool" where
  "anchored a = ((startLatLng a = None \<longleftrightarrow> lastPointLatLng a = None) \<and>
                 (startLatLng a = None \<longleftrightarrow> pathCoords a = []))"

definition coherent :: "'n App \<Rightarrow> bool" where
  "coherent a = ((startLatLng a = None \<longrightarrow> segments a = []) \<and>
      pathCoords a = composePath_spec (startLatLng a) (segments a))"

section \<open>Example inputs\<close>

text \<open>
  The document the platform's parser returns, without throwing, for a text that is not
  well-formed: a single \<open>parsererror\<close> element. \<open>errorDocumentParser\<close> is a parser for
  which every text is of that kind; \<open>zeroFloat\<close> stands in for \<open>parseFloat\<close> in runs
  that import nothing.
\<close>

definition parsererrorDocument :: xml_node where
  "parsererrorDocument = Element ''parsererror'' [] [Text ''error'']"

definition errorDocumentParser :: "string \<Rightarrow> js_error + xml_node" where
  "errorDocumentParser text = Inr parsererrorDocument"

definition zeroFloat :: "string \<Rightarrow> int" where
  "zeroFloat text = 0"

text \<open>
  A track document of two points, \<open>pointP\<close> and \<open>pointQ\<close> below; a parser that
  returns it for every text; and a stand-in for \<open>parseFloat\<close> that reads the
  numerals the examples use.
\<close>

definition twoPointDocument :: xml_node where
  "twoPointDocument =
     Element ''gpx'' []
       [Element ''trk'' []
          [Element ''trkseg'' []
             [Element ''trkpt'' [(''lat'', ''35''), (''lon'', ''126'')] [],
              Element ''trkpt'' [(''lat'', ''35''), (''lon'', ''127'')] []]]]"

definition twoPointParser :: "string \<Rightarrow> js_error + xml_node" where
  "twoPointParser text = Inr twoPointDocument"

definition smallFloat :: "string \<Rightarrow> int" where
  "smallFloat text =
     (if text = ''35'' then 35 else if text = ''36'' then 36
      else if text = ''126'' then 126 else if text = ''127'' then 127 else 0)"

text \<open>
  Three points, and the states of \<open>App\<close> on the way of a small course: after the first
  click on \<open>pointP\<close>; after a click on \<open>pointQ\<close> whose leg came back as the straight
  line; after a further click on \<open>pointR\<close> with the same outcome. \<open>appStaleLeg\<close> is the
  state in which the answer for the leg from \<open>pointP\<close> to \<open>pointQ\<close> has arrived after a
  reset.
\<close>

definition pointP :: "int latlng" where
  "pointP = \<lparr>lat = 35, lng = 126\<rparr>"

definition pointQ :: "int latlng" where
  "pointQ = \<lparr>lat = 35, lng = 127\<rparr>"

definition pointR :: "int latlng" where
  "pointR = \<lparr>lat = 36, lng = 127\<rparr>"

definition appStartOnly :: "int App" where
  "appStartOnly =
     \<lparr>startLatLng = Some pointP, lastPointLatLng = Some pointP, startMarker = Some pointP,
      segments = [], polyline = None, pathCoords = [pointP]\<rparr>"

definition appOneLeg :: "int App" where
  "appOneLeg =
     \<lparr>startLatLng = Some pointP, lastPointLatLng = Some pointQ, startMarker = Some pointP,
      segments = [\<lparr>coords = [pointP, pointQ]\<rparr>],
      polyline = Some \<lparr>pl_path = [pointP, pointQ], pl_map = True\<rparr>,
      pathCoords = [pointP, pointQ]\<rparr>"

definition appTwoLegs :: "int App" where
  "appTwoLegs =
     \<lparr>startLatLng = Some pointP, lastPointLatLng = Some pointR, startMarker = Some pointP,
      segments = [\<lparr>coords = [pointP, pointQ]\<rparr>, \<lparr>coords = [pointQ, pointR]\<rparr>],
      polyline = Some \<lparr>pl_path = [pointP, pointQ, pointR], pl_map = True\<rparr>,
      pathCoords = [pointP, pointQ, pointR]\<rparr>"

definition appStaleLeg :: "int App" where
  "appStaleLeg =
     \<lparr>startLatLng = None, lastPointLatLng = None, startMarker = None,
      segments = [\<lparr>coords = [pointP, pointQ]\<rparr>], polyline = None, pathCoords = []\<rparr>"

text \<open>
  \<open>appUndone\<close>: the two-leg course above, where the second leg is still being resolved
  (\<open>appOneLeg\<close> after the click on \<open>pointR\<close>), after an undo. \<open>appStaleAfterUndo\<close>: the
  state once the answer for the leg from \<open>pointQ\<close> to \<open>pointR\<close> has arrived after that
  undo.
\<close>

definition appUndone :: "int App" where
  "appUndone =
     \<lparr>startLatLng = Some pointP, lastPointLatLng = Some pointP, startMarker = Some pointP,
      segments = [],
      polyline = Some \<lparr>pl_path = [pointP, pointQ], pl_map = False\<rparr>,
      pathCoords = [pointP]\<rparr>"

definition appStaleAfterUndo :: "int App" where
  "appStaleAfterUndo =
     \<lparr>startLatLng = Some pointP, lastPointLatLng = Some pointR, startMarker = Some pointP,
      segments = [\<lparr>coords = [pointQ, pointR]\<rparr>],
      polyline = Some \<lparr>pl_path = [pointP, pointR], pl_map = True\<rparr>,
      pathCoords = [pointP, pointR]\<rparr>"

text \<open>
  \<open>appClickAfterStale\<close>: \<open>appStaleLeg\<close> after a click on \<open>pointR\<close>, which sets the
  start anew.
\<close>

definition appClickAfterStale :: "int App" where
  "appClickAfterStale =
     \<lparr>startLatLng = Some pointR, lastPointLatLng = Some pointR, startMarker = Some pointR,
      segments = [\<lparr>coords = [pointP, pointQ]\<rparr>], polyline = None, pathCoords = [pointR]\<rparr>"

section \<open>Facts about composition and drawing\<close>

lemma foldl_concat_tl:
  "foldl (\<lambda>path seg. if length (coords seg) > 0 then path @ drop 1 (coords seg) else path) acc segs
     = acc @ concat (map (\<lambda>seg. tl (coords seg)) segs)"
  by (induction segs arbitrary: acc) (auto simp: drop_Suc)

lemma rebuild_keeps:
  "startLatLng (rebuildPathFromSegments a) = startLatLng a"
  "segments (rebuildPathFromSegments a) = segments a"
  "startMarker (rebuildPathFromSegments a) = startMarker a"
  "polyline (rebuildPathFromSegments a) = polyline a"
  by (simp_all add: rebuildPathFromSegments_def Let_def split: option.splits)

lemma rebuild_path:
  "pathCoords (rebuildPathFromSegments a) = composePath_spec (startLatLng a) (segments a)"
proof (cases "startLatLng a")
  case None
  then show ?thesis
    by (simp add: rebuildPathFromSegments_def composePath_spec_def)
next
  case (Some s)
  then show ?thesis
    using foldl_concat_tl [of "[s]" "segments a"]
    by (simp add: rebuildPathFromSegments_def composePath_spec_def Let_def)
qed

lemma redraw_keeps:
  "startLatLng (redrawPolyline a) = startLatLng a"
  "lastPointLatLng (redrawPolyline a) = lastPointLatLng a"
  "segments (redrawPolyline a) = segments a"
  "startMarker (redrawPolyline a) = startMarker a"
  "pathCoords (redrawPolyline a) = pathCoords a"
  by (simp_all add: redrawPolyline_def Let_def split: option.splits)

lemma resetCourse_init: "resetCourse (a :: 'n App) = initApp"
  by (simp add: resetCourse_def initApp_def)

lemma length_concat_tl:
  "\<forall>seg \<in> set segs. coords seg \<noteq> [] \<Longrightarrow>
     int (length (concat (map (\<lambda>seg. tl (coords seg)) segs)))
       = (\<Sum>seg\<leftarrow>segs. int (length (coords seg)) - 1)"
proof (induction segs)
  case Nil
  then show ?case by simp
next
  case (Cons seg segs)
  from Cons.prems have "coords seg \<noteq> []" by simp
  then have "int (length (tl (coords seg))) = int (length (coords seg)) - 1"
    by (cases "coords seg") simp_all
  moreover from Cons have
    "int (length (concat (map (\<lambda>seg. tl (coords seg)) segs)))
       = (\<Sum>seg\<leftarrow>segs. int (length (coords seg)) - 1)"
    by simp
  ultimately show ?case by simp
qed

lemma copy_points: "map (\<lambda>p. \<lparr>lat = lat p, lng = lng p\<rparr>) (ps :: 'n latlng list) = ps"
  by (induction ps) simp_all

text \<open>Unfolding sets for runs on the example inputs.\<close>

lemmas ex_defs = pointP_def pointQ_def pointR_def appStartOnly_def appOneLeg_def appTwoLegs_def
  appStaleLeg_def appUndone_def appStaleAfterUndo_def appClickAfterStale_def initSys_def
  initApp_def

lemmas run_defs = step_def onMapClick_def addRouteSegment_def addRouteSegment_callback_def
  rebuildPathFromSegments_def redrawPolyline_def resetCourse_def undoLastSegment_def Let_def

section \<open>Facts about clicks, answers, undo and import\<close>

lemma onMapClick_start: "startLatLng (fst (onMapClick v p a)) \<noteq> None"
  by (simp add: onMapClick_def redraw_keeps Let_def split: option.splits)

lemma onMapClick_segments: "segments (fst (onMapClick v p a)) = segments a"
  by (simp add: onMapClick_def redraw_keeps Let_def split: option.splits)

lemma undo_with_segments:
  assumes "startLatLng a = Some s" "segments a \<noteq> []"
  shows "undoLastSegment a =
           redrawPolyline (rebuildPathFromSegments (a\<lparr>segments := butlast (segments a)\<rparr>))"
  using assms by (simp add: undoLastSegment_def)

lemma undo_without_segments:
  assumes "startLatLng a = Some s" "segments a = []"
  shows "undoLastSegment a = resetCourse a"
  using assms by (simp add: undoLastSegment_def)

lemma undo_without_start:
  assumes "startLatLng a = None"
  shows "undoLastSegment a = a"
  using assms by (simp add: undoLastSegment_def)

lemma callback_not_ok:
  assumes "status \<noteq> ''OK''"
  shows "addRouteSegment_callback orig dest result status a =
           Inr (redrawPolyline (rebuildPathFromSegments
                  (a\<lparr>segments := segments a @ [\<lparr>coords = [orig, dest]\<rparr>]\<rparr>)))"
  using assms by (simp add: addRouteSegment_callback_def)

lemma callback_ok_points:
  assumes "result = Some res" "routes res = r0 # rs" "overview_path r0 \<noteq> []"
  shows "addRouteSegment_callback orig dest result ''OK'' a =
           Inr (redrawPolyline (rebuildPathFromSegments
                  (a\<lparr>segments := segments a @ [\<lparr>coords = overview_path r0\<rparr>]\<rparr>)))"
  using assms by (simp add: addRouteSegment_callback_def copy_points)

lemma callback_ok_empty:
  assumes "result = Some res" "routes res = r0 # rs" "overview_path r0 = []"
  shows "addRouteSegment_callback orig dest result ''OK'' a = Inr a"
  using assms by (simp add: addRouteSegment_callback_def)

lemma callback_start:
  "addRouteSegment_callback orig dest result status a = Inr a' \<Longrightarrow> startLatLng a' = startLatLng a"
  by (auto simp: addRouteSegment_callback_def redraw_keeps rebuild_keeps Let_def
           split: if_splits option.splits list.splits)

lemma pushed_segment:
  "segments (redrawPolyline (rebuildPathFromSegments (a\<lparr>segments := segments a @ [seg]\<rparr>)))
     = segments a @ [seg]"
  "startLatLng (redrawPolyline (rebuildPathFromSegments (a\<lparr>segments := segments a @ [seg]\<rparr>)))
     = startLatLng a"
  "pathCoords (redrawPolyline (rebuildPathFromSegments (a\<lparr>segments := segments a @ [seg]\<rparr>)))
     = composePath_spec (startLatLng a) (segments a @ [seg])"
  by (simp_all add: redraw_keeps rebuild_keeps rebuild_path)

text \<open>
  The four outcomes of an import. When the parser throws, or finds fewer than two track
  points, every field of \<open>App\<close> is as before. With two or more track points the course is
  replaced; the dialog is the one of success when \<open>#map\<close> is set, and the one for a
  read error when it is not.
\<close>

lemma loadGpxFromText_outcomes:
  "(parseFromString text = Inl err \<longrightarrow>
      loadGpxFromText parseFromString parseFloat mapSet text a = (a, AlertReadError)) \<and>
   (parseFromString text = Inr xml \<and> length (getElementsByTagName ''trkpt'' xml) < 2 \<longrightarrow>
      loadGpxFromText parseFromString parseFloat mapSet text a = (a, AlertNoTrackPoints)) \<and>
   (parseFromString text = Inr xml \<and> 2 \<le> length (getElementsByTagName ''trkpt'' xml) \<longrightarrow>
      snd (loadGpxFromText parseFromString parseFloat mapSet text a) =
        (if mapSet then AlertLoaded else AlertReadError))"
  by (simp add: loadGpxFromText_def Let_def)

lemma loadGpxFromText_no_points_no_effect:
  "snd (loadGpxFromText parseFromString parseFloat mapSet text a) = AlertNoTrackPoints \<Longrightarrow>
     fst (loadGpxFromText parseFromString parseFloat mapSet text a) = a"
  by (simp add: loadGpxFromText_def Let_def split: sum.splits if_splits)

lemma loadGpxFromText_with_map_all_or_nothing:
  "snd (loadGpxFromText parseFromString parseFloat True text a) \<noteq> AlertLoaded \<Longrightarrow>
     fst (loadGpxFromText parseFromString parseFloat True text a) = a"
  by (simp add: loadGpxFromText_def Let_def split: sum.splits if_splits)

text \<open>
  A file read before \<open>_loadMap\<close> has run: on the empty page the two-point document
  replaces the course and the dialog is the one for a read error.
\<close>

lemma loadGpxFromText_before_map:
  "loadGpxFromText twoPointParser smallFloat False ''two points'' initApp
     = (appOneLeg, AlertReadError)"
  by (simp add: loadGpxFromText_def twoPointParser_def twoPointDocument_def smallFloat_def
        toString_def resetCourse_def redrawPolyline_def initApp_def appOneLeg_def pointP_def
        pointQ_def Let_def)

lemma import_before_map_replaces_course:
  "exec twoPointParser smallFloat [GpxRead ''two points''] initSys
     = Some \<lparr>app = appOneLeg, pending = [], hasMap = False\<rparr>"
  by (simp add: step_def initSys_def loadGpxFromText_before_map)

lemma loadGpx_result:
  "fst (loadGpxFromText P pf m gpx a) = a \<or>
   (\<exists>cs. 2 \<le> length cs \<and>
      startLatLng (fst (loadGpxFromText P pf m gpx a)) = Some (cs ! 0) \<and>
      lastPointLatLng (fst (loadGpxFromText P pf m gpx a)) = Some (cs ! (length cs - 1)) \<and>
      startMarker (fst (loadGpxFromText P pf m gpx a)) = Some (cs ! 0) \<and>
      segments (fst (loadGpxFromText P pf m gpx a)) = [\<lparr>coords = cs\<rparr>] \<and>
      pathCoords (fst (loadGpxFromText P pf m gpx a)) = cs)"
proof (cases "P gpx")
  case (Inl err)
  then show ?thesis by (simp add: loadGpxFromText_def)
next
  case (Inr xml)
  let ?pts = "getElementsByTagName ''trkpt'' xml"
  show ?thesis
  proof (cases "length ?pts < 2")
    case True
    with Inr show ?thesis by (simp add: loadGpxFromText_def)
  next
    case False
    let ?cs = "map (\<lambda>pt. \<lparr>lat = pf (toString (getAttribute ''lat'' pt)),
                            lng = pf (toString (getAttribute ''lon'' pt))\<rparr>) ?pts"
    from False have len: "2 \<le> length ?cs" by simp
    from Inr False have
      "fst (loadGpxFromText P pf m gpx a) =
         redrawPolyline ((resetCourse a)\<lparr>pathCoords := ?cs, startLatLng := Some (?cs ! 0),
            lastPointLatLng := Some (?cs ! (length ?cs - 1)), segments := [\<lparr>coords = ?cs\<rparr>],
            startMarker := Some (?cs ! 0)\<rparr>)"
      by (simp add: loadGpxFromText_def Let_def)
    then have
      "startLatLng (fst (loadGpxFromText P pf m gpx a)) = Some (?cs ! 0) \<and>
       lastPointLatLng (fst (loadGpxFromText P pf m gpx a)) = Some (?cs ! (length ?cs - 1)) \<and>
       startMarker (fst (loadGpxFromText P pf m gpx a)) = Some (?cs ! 0) \<and>
       segments (fst (loadGpxFromText P pf m gpx a)) = [\<lparr>coords = ?cs\<rparr>] \<and>
       pathCoords (fst (loadGpxFromText P pf m gpx a)) = ?cs"
      by (simp add: redraw_keeps)
    with len show ?thesis by blast
  qed
qed

section \<open>Facts about runs\<close>

lemma step_reset:
  "step P pf ResetClick s = Some \<lparr>app = initApp, pending = pending s, hasMap = hasMap s\<rparr>"
  by (simp add: step_def resetCourse_init)

lemma step_undo:
  "step P pf UndoClick s =
     Some \<lparr>app = undoLastSegment (app s), pending = pending s, hasMap = hasMap s\<rparr>"
  by (simp add: step_def)

lemma step_answer:
  assumes "i < length (pending s)"
    and "addRouteSegment_callback (origin (pending s ! i)) (destination (pending s ! i))
           result status (app s) = Inr a'"
  shows "step P pf (RouteDone i result status) s =
           Some \<lparr>app = a', pending = take i (pending s) @ drop (Suc i) (pending s),
                 hasMap = hasMap s\<rparr>"
  using assms by (simp add: step_def Let_def)

text \<open>
  In every state a run reaches from the empty page, every stored segment has at least
  one point: a straight line has two, an empty poly-line is not stored, and an import
  stores at least two.
\<close>

lemma callback_nonempty:
  assumes "addRouteSegment_callback orig dest result status a = Inr a'"
    and "\<forall>seg \<in> set (segments a). coords seg \<noteq> []"
  shows "\<forall>seg \<in> set (segments a'). coords seg \<noteq> []"
  using assms
  by (auto simp: addRouteSegment_callback_def redraw_keeps rebuild_keeps Let_def copy_points
           split: if_splits option.splits list.splits)

lemma undo_nonempty:
  assumes "\<forall>seg \<in> set (segments a). coords seg \<noteq> []"
  shows "\<forall>seg \<in> set (segments (undoLastSegment a)). coords seg \<noteq> []"
  using assms
  by (auto simp: undoLastSegment_def resetCourse_init initApp_def redraw_keeps rebuild_keeps
           split: option.splits dest: in_set_butlastD)

lemma loadGpx_nonempty:
  assumes "\<forall>seg \<in> set (segments a). coords seg \<noteq> []"
  shows "\<forall>seg \<in> set (segments (fst (loadGpxFromText P pf m gpx a))). coords seg \<noteq> []"
  using assms
  by (auto simp: loadGpxFromText_def redraw_keeps Let_def split: sum.splits)

lemma step_nonempty:
  assumes "step P pf ev s = Some s'"
    and "\<forall>seg \<in> set (segments (app s)). coords seg \<noteq> []"
  shows "\<forall>seg \<in> set (segments (app s')). coords seg \<noteq> []"
proof (cases ev)
  case MapLoaded
  with assms(1) have "app s' = app s" by (auto simp: step_def split: if_splits)
  with assms show ?thesis by simp
next
  case (MapClick v p)
  with assms(1) have "app s' = fst (onMapClick v p (app s))"
    by (auto simp: step_def split: if_splits prod.splits sum.splits option.splits)
  with assms(2) show ?thesis by (simp add: onMapClick_segments)
next
  case (RouteDone i result status)
  with assms show ?thesis
    by (auto simp: step_def Let_def split: if_splits sum.splits dest: callback_nonempty)
next
  case UndoClick
  with assms(1) have "app s' = undoLastSegment (app s)" by (auto simp: step_def)
  with assms(2) show ?thesis using undo_nonempty [of "app s"] by simp
next
  case ResetClick
  with assms(1) have "app s' = initApp" by (auto simp: step_def resetCourse_init)
  then show ?thesis by (simp add: initApp_def)
next
  case (GpxRead gpx)
  with assms(1) have "app s' = fst (loadGpxFromText P pf (hasMap s) gpx (app s))" by (auto simp: step_def)
  with assms(2) show ?thesis using loadGpx_nonempty [of "app s" P pf "hasMap s" gpx] by simp
qed

lemma exec_nonempty:
  "exec P pf evs s = Some s' \<Longrightarrow> \<forall>seg \<in> set (segments (app s)). coords seg \<noteq> [] \<Longrightarrow>
   \<forall>seg \<in> set (segments (app s')). coords seg \<noteq> []"
proof (induction evs arbitrary: s)
  case Nil
  then show ?case by simp
next
  case (Cons ev evs)
  from Cons.prems(1) obtain s1 where s1: "step P pf ev s = Some s1" "exec P pf evs s1 = Some s'"
    by (auto split: option.splits)
  from step_nonempty [OF s1(1) Cons.prems(2)] Cons.IH [OF s1(2)] show ?case by simp
qed

lemma reachable_segments_nonempty:
  "exec P pf evs initSys = Some s \<Longrightarrow> \<forall>seg \<in> set (segments (app s)). coords seg \<noteq> []"
  using exec_nonempty [of P pf evs initSys s] by (simp add: initSys_def initApp_def)

text \<open>
  In every state a run reaches, the last point and the path are there exactly when the
  start is. So no click of a run makes a request without an origin.
\<close>

lemma rebuild_last:
  "startLatLng a = Some s \<Longrightarrow> lastPointLatLng (rebuildPathFromSegments a) \<noteq> None"
  "startLatLng a = None \<Longrightarrow> lastPointLatLng (rebuildPathFromSegments a) = lastPointLatLng a"
  using foldl_concat_tl [of "[s]" "segments a"]
  by (simp_all add: rebuildPathFromSegments_def Let_def)

lemma rebuild_anchored:
  assumes "anchored a"
  shows "anchored (rebuildPathFromSegments (a\<lparr>segments := segs\<rparr>))"
proof (cases "startLatLng a")
  case None
  with assms show ?thesis
    by (simp add: anchored_def rebuild_keeps rebuild_path rebuild_last composePath_spec_def)
next
  case (Some s)
  then have "lastPointLatLng (rebuildPathFromSegments (a\<lparr>segments := segs\<rparr>)) \<noteq> None"
    by (simp add: rebuild_last)
  with Some show ?thesis
    by (simp add: anchored_def rebuild_keeps rebuild_path composePath_spec_def)
qed

lemma redraw_anchored: "anchored (redrawPolyline a) = anchored a"
  by (simp add: anchored_def redraw_keeps)

lemma onMapClick_anchored: "anchored a \<Longrightarrow> anchored (fst (onMapClick v p a))"
  by (cases "startLatLng a") (simp_all add: onMapClick_def redraw_anchored Let_def, simp_all add: anchored_def)

lemma callback_anchored:
  "addRouteSegment_callback orig dest result status a = Inr a' \<Longrightarrow> anchored a \<Longrightarrow> anchored a'"
  by (auto simp: addRouteSegment_callback_def redraw_anchored rebuild_anchored Let_def
           split: if_splits option.splits list.splits)

lemma undo_anchored: "anchored a \<Longrightarrow> anchored (undoLastSegment a)"
  by (cases "startLatLng a")
     (simp_all add: undoLastSegment_def redraw_anchored rebuild_anchored resetCourse_init,
      simp add: anchored_def initApp_def)

lemma loadGpx_anchored: "anchored a \<Longrightarrow> anchored (fst (loadGpxFromText P pf m gpx a))"
  using loadGpx_result [of P pf m gpx a] by (auto simp: anchored_def)

lemma step_anchored:
  assumes "step P pf ev s = Some s'" and "anchored (app s)"
  shows "anchored (app s')"
proof (cases ev)
  case MapLoaded
  with assms(1) have "app s' = app s" by (auto simp: step_def split: if_splits)
  with assms show ?thesis by simp
next
  case (MapClick v p)
  with assms(1) have "app s' = fst (onMapClick v p (app s))"
    by (auto simp: step_def split: if_splits prod.splits sum.splits option.splits)
  with assms(2) show ?thesis by (simp add: onMapClick_anchored)
next
  case (RouteDone i result status)
  with assms show ?thesis
    by (auto simp: step_def Let_def split: if_splits sum.splits dest: callback_anchored)
next
  case UndoClick
  with assms show ?thesis by (auto simp: step_def undo_anchored)
next
  case ResetClick
  with assms(1) have "app s' = initApp" by (auto simp: step_def resetCourse_init)
  then show ?thesis by (simp add: initApp_def anchored_def)
next
  case (GpxRead gpx)
  with assms show ?thesis by (auto simp: step_def loadGpx_anchored)
qed

lemma exec_anchored:
  "exec P pf evs s = Some s' \<Longrightarrow> anchored (app s) \<Longrightarrow> anchored (app s')"
proof (induction evs arbitrary: s)
  case Nil
  then show ?case by simp
next
  case (Cons ev evs)
  from Cons.prems(1) obtain s1 where s1: "step P pf ev s = Some s1" "exec P pf evs s1 = Some s'"
    by (auto split: option.splits)
  from step_anchored [OF s1(1) Cons.prems(2)] Cons.IH [OF s1(2)] show ?case by simp
qed

lemma reachable_anchored:
  assumes "exec P pf evs initSys = Some s"
  shows "anchored (app s)"
proof -
  have "anchored (app (initSys :: 'a sys))"
    by (simp add: initSys_def initApp_def anchored_def)
  with assms show ?thesis by (rule exec_anchored)
qed

lemma reachable_click_requests:
  assumes "exec P pf evs initSys = Some s" "startLatLng (app s) = Some st"
  shows "\<exists>a' r. onMapClick v p (app s) = (a', Inr (Some r))"
proof -
  from reachable_anchored [OF assms(1)] assms(2) obtain l where "lastPointLatLng (app s) = Some l"
    by (auto simp: anchored_def)
  with assms(2) show ?thesis by (simp add: onMapClick_def addRouteSegment_def Let_def)
qed

text \<open>
  As long as every answer arrives while the start is set, a store without a start has no
  segments.
\<close>

lemma undo_start_segments:
  "startLatLng a = None \<longrightarrow> segments a = [] \<Longrightarrow>
   startLatLng (undoLastSegment a) = None \<longrightarrow> segments (undoLastSegment a) = []"
  by (auto simp: undoLastSegment_def resetCourse_init initApp_def redraw_keeps rebuild_keeps
           split: option.splits)

lemma loadGpx_start_segments:
  "startLatLng a = None \<longrightarrow> segments a = [] \<Longrightarrow>
   startLatLng (fst (loadGpxFromText P pf m text a)) = None \<longrightarrow>
     segments (fst (loadGpxFromText P pf m text a)) = []"
  by (auto simp: loadGpxFromText_def redraw_keeps Let_def split: sum.splits)

lemma step_start_segments:
  assumes "step P pf ev s = Some s'"
    and "case ev of RouteDone i result status \<Rightarrow> startLatLng (app s) \<noteq> None | _ \<Rightarrow> True"
    and "startLatLng (app s) = None \<longrightarrow> segments (app s) = []"
  shows "startLatLng (app s') = None \<longrightarrow> segments (app s') = []"
proof (cases ev)
  case MapLoaded
  with assms(1) have "app s' = app s" by (auto simp: step_def split: if_splits)
  with assms show ?thesis by simp
next
  case (MapClick v p)
  with assms(1) have "app s' = fst (onMapClick v p (app s))"
    by (auto simp: step_def split: if_splits prod.splits sum.splits option.splits)
  then show ?thesis by (simp add: onMapClick_start)
next
  case (RouteDone i result status)
  with assms(2) have st: "startLatLng (app s) \<noteq> None" by simp
  from RouteDone assms(1) have "startLatLng (app s') = startLatLng (app s)"
    by (auto simp: step_def Let_def callback_start split: if_splits sum.splits)
  with st show ?thesis by auto
next
  case UndoClick
  with assms(1) have "app s' = undoLastSegment (app s)" by (auto simp: step_def)
  with assms(3) show ?thesis by (simp add: undo_start_segments)
next
  case ResetClick
  with assms(1) have "app s' = initApp" by (auto simp: step_def resetCourse_init)
  then show ?thesis by (simp add: initApp_def)
next
  case (GpxRead gpx)
  with assms(1) have "app s' = fst (loadGpxFromText P pf (hasMap s) gpx (app s))" by (auto simp: step_def)
  with assms(3) show ?thesis by (simp add: loadGpx_start_segments)
qed

lemma exec_start_segments:
  "exec P pf evs s = Some s' \<Longrightarrow> answersWithStart P pf evs s \<Longrightarrow>
   (startLatLng (app s) = None \<longrightarrow> segments (app s) = []) \<Longrightarrow>
   (startLatLng (app s') = None \<longrightarrow> segments (app s') = [])"
proof (induction evs arbitrary: s)
  case Nil
  then show ?case by simp
next
  case (Cons ev evs)
  from Cons.prems(1) obtain s1 where s1: "step P pf ev s = Some s1" "exec P pf evs s1 = Some s'"
    by (auto split: option.splits)
  from Cons.prems(2) s1(1) have
    ok: "case ev of RouteDone i result status \<Rightarrow> startLatLng (app s) \<noteq> None | _ \<Rightarrow> True"
    and rest: "answersWithStart P pf evs s1"
    by simp_all
  from step_start_segments [OF s1(1) ok Cons.prems(3)]
  have "startLatLng (app s1) = None \<longrightarrow> segments (app s1) = []" .
  with Cons.IH [OF s1(2) rest] show ?case by simp
qed

text \<open>
  As long as every answer arrives while the start is set, the stored path is the
  composition of the stored start and segments, also after the operations that assign
  the path directly (the first click and the import).
\<close>

lemma step_coherent:
  assumes "step P pf ev s = Some s'"
    and "case ev of RouteDone i result status \<Rightarrow> startLatLng (app s) \<noteq> None | _ \<Rightarrow> True"
    and "coherent (app s)"
  shows "coherent (app s')"
proof -
  from assms(3) have inv: "startLatLng (app s) = None \<longrightarrow> segments (app s) = []"
    by (simp add: coherent_def)
  have 1: "startLatLng (app s') = None \<longrightarrow> segments (app s') = []"
    by (rule step_start_segments [OF assms(1) assms(2) inv])
  have 2: "pathCoords (app s') = composePath_spec (startLatLng (app s')) (segments (app s'))"
  proof (cases ev)
    case MapLoaded
    with assms(1) have "app s' = app s" by (auto simp: step_def split: if_splits)
    with assms(3) show ?thesis by (simp add: coherent_def)
  next
    case (MapClick v p)
    with assms(1) have "app s' = fst (onMapClick v p (app s))"
      by (auto simp: step_def split: if_splits prod.splits sum.splits option.splits)
    with assms(3) show ?thesis
      by (cases "startLatLng (app s)")
         (simp_all add: onMapClick_def redraw_keeps Let_def coherent_def composePath_spec_def)
  next
    case (RouteDone i result status)
    with assms(1,3) show ?thesis
      by (auto simp: step_def Let_def addRouteSegment_callback_def redraw_keeps rebuild_keeps
            rebuild_path coherent_def split: if_splits sum.splits option.splits list.splits)
  next
    case UndoClick
    with assms(1,3) show ?thesis
      by (cases "startLatLng (app s)")
         (auto simp: step_def undoLastSegment_def redraw_keeps rebuild_keeps rebuild_path
            resetCourse_init initApp_def coherent_def composePath_spec_def)
  next
    case ResetClick
    with assms(1) have "app s' = initApp" by (auto simp: step_def resetCourse_init)
    then show ?thesis by (simp add: initApp_def composePath_spec_def)
  next
    case (GpxRead gpx)
    with assms(1) have a': "app s' = fst (loadGpxFromText P pf (hasMap s) gpx (app s))"
      by (auto simp: step_def)
    from loadGpx_result [of P pf "hasMap s" gpx "app s"] show ?thesis
    proof
      assume "fst (loadGpxFromText P pf (hasMap s) gpx (app s)) = app s"
      with a' assms(3) show ?thesis by (simp add: coherent_def)
    next
      assume "\<exists>cs. 2 \<le> length cs \<and>
        startLatLng (fst (loadGpxFromText P pf (hasMap s) gpx (app s))) = Some (cs ! 0) \<and>
        lastPointLatLng (fst (loadGpxFromText P pf (hasMap s) gpx (app s))) = Some (cs ! (length cs - 1)) \<and>
        startMarker (fst (loadGpxFromText P pf (hasMap s) gpx (app s))) = Some (cs ! 0) \<and>
        segments (fst (loadGpxFromText P pf (hasMap s) gpx (app s))) = [\<lparr>coords = cs\<rparr>] \<and>
        pathCoords (fst (loadGpxFromText P pf (hasMap s) gpx (app s))) = cs"
      then obtain cs where cs: "2 \<le> length cs"
        "startLatLng (app s') = Some (cs ! 0)" "segments (app s') = [\<lparr>coords = cs\<rparr>]"
        "pathCoords (app s') = cs"
        using a' by auto
      from cs(1) have "cs = cs ! 0 # tl cs" by (cases cs) simp_all
      with cs show ?thesis by (simp add: composePath_spec_def)
    qed
  qed
  from 1 2 show ?thesis by (simp add: coherent_def)
qed

lemma exec_coherent:
  "exec P pf evs s = Some s' \<Longrightarrow> answersWithStart P pf evs s \<Longrightarrow> coherent (app s) \<Longrightarrow>
   coherent (app s')"
proof (induction evs arbitrary: s)
  case Nil
  then show ?case by simp
next
  case (Cons ev evs)
  from Cons.prems(1) obtain s1 where s1: "step P pf ev s = Some s1" "exec P pf evs s1 = Some s'"
    by (auto split: option.splits)
  from Cons.prems(2) s1(1) have
    ok: "case ev of RouteDone i result status \<Rightarrow> startLatLng (app s) \<noteq> None | _ \<Rightarrow> True"
    and rest: "answersWithStart P pf evs s1"
    by simp_all
  from step_coherent [OF s1(1) ok Cons.prems(3)] have "coherent (app s1)" .
  with Cons.IH [OF s1(2) rest] show ?case by simp
qed

lemma reachable_path_composed:
  assumes "exec P pf evs initSys = Some s" "answersWithStart P pf evs initSys"
  shows "pathCoords (app s) = composePath_spec (startLatLng (app s)) (segments (app s))"
proof -
  have "coherent (app (initSys :: 'a sys))"
    by (simp add: initSys_def initApp_def coherent_def composePath_spec_def)
  with assms have "coherent (app s)" by (rule exec_coherent)
  then show ?thesis by (simp add: coherent_def)
qed

section \<open>Leg completion\<close>

text \<open>
  C1, as the code has it. A completed response appends one segment and recomposes the
  path in two of its three outcomes: with a status other than \<open>OK\<close> it appends the
  straight line from the origin to the destination, and with status \<open>OK\<close> and a
  non-empty poly-line it appends the resolved points. With status \<open>OK\<close> and an empty
  poly-line it appends nothing and leaves every field as it was.
\<close>

theorem addRouteSegment_callback_appends:
  "(status \<noteq> ''OK'' \<longrightarrow>
      (\<exists>a'. addRouteSegment_callback orig dest result status a = Inr a' \<and>
            segments a' = segments a @ [\<lparr>coords = [orig, dest]\<rparr>] \<and>
            pathCoords a' = composePath_spec (startLatLng a') (segments a'))) \<and>
   (status = ''OK'' \<and> result = Some res \<and> routes res = r0 # rs \<and> overview_path r0 \<noteq> [] \<longrightarrow>
      (\<exists>a'. addRouteSegment_callback orig dest result status a = Inr a' \<and>
            segments a' = segments a @ [\<lparr>coords = overview_path r0\<rparr>] \<and>
            pathCoords a' = composePath_spec (startLatLng a') (segments a'))) \<and>
   (status = ''OK'' \<and> result = Some res \<and> routes res = r0 # rs \<and> overview_path r0 = [] \<longrightarrow>
      addRouteSegment_callback orig dest result status a = Inr a)"
proof (intro conjI impI)
  assume "status \<noteq> ''OK''"
  then show "\<exists>a'. addRouteSegment_callback orig dest result status a = Inr a' \<and>
            segments a' = segments a @ [\<lparr>coords = [orig, dest]\<rparr>] \<and>
            pathCoords a' = composePath_spec (startLatLng a') (segments a')"
    by (simp add: callback_not_ok pushed_segment)
next
  assume "status = ''OK'' \<and> result = Some res \<and> routes res = r0 # rs \<and> overview_path r0 \<noteq> []"
  then show "\<exists>a'. addRouteSegment_callback orig dest result status a = Inr a' \<and>
            segments a' = segments a @ [\<lparr>coords = overview_path r0\<rparr>] \<and>
            pathCoords a' = composePath_spec (startLatLng a') (segments a')"
    by (simp add: callback_ok_points pushed_segment)
next
  assume "status = ''OK'' \<and> result = Some res \<and> routes res = r0 # rs \<and> overview_path r0 = []"
  then show "addRouteSegment_callback orig dest result status a = Inr a"
    by (simp add: callback_ok_empty)
qed

theorem addRouteSegment_callback_appends_witness:
  "addRouteSegment_callback pointP pointQ None ''ZERO_RESULTS'' appStartOnly = Inr appOneLeg \<and>
   addRouteSegment_callback pointQ pointR
       (Some \<lparr>routes = [\<lparr>overview_path = [pointQ, pointR]\<rparr>]\<rparr>) ''OK'' appOneLeg = Inr appTwoLegs \<and>
   addRouteSegment_callback pointQ pointR
       (Some \<lparr>routes = [\<lparr>overview_path = []\<rparr>]\<rparr>) ''OK'' appOneLeg = Inr appOneLeg"
  using addRouteSegment_callback_appends
     [of "''ZERO_RESULTS''" pointP pointQ None appStartOnly]
    addRouteSegment_callback_appends
     [of "''OK''" pointQ pointR "Some \<lparr>routes = [\<lparr>overview_path = [pointQ, pointR]\<rparr>]\<rparr>"
         appOneLeg "\<lparr>routes = [\<lparr>overview_path = [pointQ, pointR]\<rparr>]\<rparr>"
         "\<lparr>overview_path = [pointQ, pointR]\<rparr>" "[]"]
    addRouteSegment_callback_appends
     [of "''OK''" pointQ pointR "Some \<lparr>routes = [\<lparr>overview_path = []\<rparr>]\<rparr>"
         appOneLeg "\<lparr>routes = [\<lparr>overview_path = []\<rparr>]\<rparr>"
         "\<lparr>overview_path = []\<rparr>" "[]"]
  by (simp add: ex_defs run_defs composePath_spec_def)

text \<open>
  C1 as stated fails: after a click on \<open>pointP\<close> and a click on \<open>pointQ\<close>, the answer
  \<open>OK\<close> with an empty poly-line leaves the list of segments empty; no straight line
  from \<open>pointP\<close> to \<open>pointQ\<close> is appended for the second click.
\<close>

theorem empty_polyline_appends_nothing:
  "exec errorDocumentParser zeroFloat
     [MapLoaded, MapClick ''running'' pointP, MapClick ''running'' pointQ,
      RouteDone 0 (Some \<lparr>routes = [\<lparr>overview_path = []\<rparr>]\<rparr>) ''OK''] initSys
   = Some \<lparr>app = appStartOnly\<lparr>lastPointLatLng := Some pointQ\<rparr>, pending = [], hasMap = True\<rparr> \<and>
   segments (appStartOnly\<lparr>lastPointLatLng := Some pointQ\<rparr>) = []"
  by (simp add: ex_defs run_defs)

section \<open>Answers that arrive after a reset or an undo\<close>

text \<open>
  C2, as the code has it. There is no cancellation: the answer to a request that was
  pending at a reset or an undo is applied to the store as it is when the answer
  arrives. After a reset the start stays absent and the composed path stays empty, but
  a failed answer appends the straight line, and a successful one with a non-empty
  poly-line appends its points, to the emptied list of segments. After an undo that
  removed the last segment, the answer's segment is appended behind the remaining ones
  and the path is recomposed with it.
\<close>

theorem answer_after_reset_or_undo:
  assumes "i < length (pending s)"
  shows
   "(status \<noteq> ''OK'' \<longrightarrow>
       (\<exists>s'. exec P pf [ResetClick, RouteDone i result status] s = Some s' \<and>
             startLatLng (app s') = None \<and> pathCoords (app s') = [] \<and>
             segments (app s') =
               [\<lparr>coords = [origin (pending s ! i), destination (pending s ! i)]\<rparr>])) \<and>
    (status = ''OK'' \<and> result = Some res \<and> routes res = r0 # rs \<and> overview_path r0 \<noteq> [] \<longrightarrow>
       (\<exists>s'. exec P pf [ResetClick, RouteDone i result status] s = Some s' \<and>
             startLatLng (app s') = None \<and> pathCoords (app s') = [] \<and>
             segments (app s') = [\<lparr>coords = overview_path r0\<rparr>])) \<and>
    (status \<noteq> ''OK'' \<and> startLatLng (app s) = Some st \<and> segments (app s) \<noteq> [] \<longrightarrow>
       (\<exists>s'. exec P pf [UndoClick, RouteDone i result status] s = Some s' \<and>
             startLatLng (app s') = Some st \<and>
             segments (app s') =
               butlast (segments (app s)) @
                 [\<lparr>coords = [origin (pending s ! i), destination (pending s ! i)]\<rparr>] \<and>
             pathCoords (app s') = composePath_spec (Some st) (segments (app s')))) \<and>
    (status = ''OK'' \<and> result = Some res \<and> routes res = r0 # rs \<and> overview_path r0 \<noteq> [] \<and>
     startLatLng (app s) = Some st \<and> segments (app s) \<noteq> [] \<longrightarrow>
       (\<exists>s'. exec P pf [UndoClick, RouteDone i result status] s = Some s' \<and>
             startLatLng (app s') = Some st \<and>
             segments (app s') = butlast (segments (app s)) @ [\<lparr>coords = overview_path r0\<rparr>] \<and>
             pathCoords (app s') = composePath_spec (Some st) (segments (app s'))))"
proof (intro conjI impI)
  let ?r = "pending s ! i"
  let ?s1 = "\<lparr>app = initApp, pending = pending s, hasMap = hasMap s\<rparr> :: 'a sys"
  have i1: "i < length (pending ?s1)" using assms by simp
  {
    fix seg :: "'a segment"
    assume cb: "addRouteSegment_callback (origin ?r) (destination ?r) result status initApp =
        Inr (redrawPolyline (rebuildPathFromSegments
               ((initApp :: 'a App)\<lparr>segments := segments (initApp :: 'a App) @ [seg]\<rparr>)))"
    let ?a' = "redrawPolyline (rebuildPathFromSegments
               ((initApp :: 'a App)\<lparr>segments := segments (initApp :: 'a App) @ [seg]\<rparr>))"
    have "exec P pf [ResetClick, RouteDone i result status] s =
            Some \<lparr>app = ?a', pending = take i (pending s) @ drop (Suc i) (pending s),
                  hasMap = hasMap s\<rparr>"
      using step_answer [of i ?s1 result status ?a' P pf] i1 cb
      by (simp add: step_reset)
    moreover have "startLatLng ?a' = None" "pathCoords ?a' = []" "segments ?a' = [seg]"
      by (simp_all add: pushed_segment composePath_spec_def) (simp_all add: initApp_def)
    ultimately have "\<exists>s'. exec P pf [ResetClick, RouteDone i result status] s = Some s' \<and>
             startLatLng (app s') = None \<and> pathCoords (app s') = [] \<and>
             segments (app s') = [seg]"
      by simp
  }
  note after_reset = this
  {
    assume "status \<noteq> ''OK''"
    then show "\<exists>s'. exec P pf [ResetClick, RouteDone i result status] s = Some s' \<and>
             startLatLng (app s') = None \<and> pathCoords (app s') = [] \<and>
             segments (app s') = [\<lparr>coords = [origin ?r, destination ?r]\<rparr>]"
      by (intro after_reset) (simp add: callback_not_ok)
  }
  {
    assume "status = ''OK'' \<and> result = Some res \<and> routes res = r0 # rs \<and> overview_path r0 \<noteq> []"
    then show "\<exists>s'. exec P pf [ResetClick, RouteDone i result status] s = Some s' \<and>
             startLatLng (app s') = None \<and> pathCoords (app s') = [] \<and>
             segments (app s') = [\<lparr>coords = overview_path r0\<rparr>]"
      by (intro after_reset) (simp add: callback_ok_points)
  }
  {
    fix seg :: "'a segment"
    assume h: "startLatLng (app s) = Some st" "segments (app s) \<noteq> []"
    let ?u = "undoLastSegment (app s)"
    let ?s1 = "\<lparr>app = ?u, pending = pending s, hasMap = hasMap s\<rparr>"
    let ?a' = "redrawPolyline (rebuildPathFromSegments (?u\<lparr>segments := segments ?u @ [seg]\<rparr>))"
    assume cb: "addRouteSegment_callback (origin ?r) (destination ?r) result status ?u = Inr ?a'"
    have i1: "i < length (pending ?s1)" using assms by simp
    have u: "startLatLng ?u = Some st" "segments ?u = butlast (segments (app s))"
      using h by (simp_all add: undo_with_segments redraw_keeps rebuild_keeps)
    have "exec P pf [UndoClick, RouteDone i result status] s =
            Some \<lparr>app = ?a', pending = take i (pending s) @ drop (Suc i) (pending s),
                  hasMap = hasMap s\<rparr>"
      using step_answer [of i ?s1 result status ?a' P pf] i1 cb
      by (simp add: step_undo)
    moreover have "startLatLng ?a' = Some st" "segments ?a' = butlast (segments (app s)) @ [seg]"
      "pathCoords ?a' = composePath_spec (Some st) (segments ?a')"
      using pushed_segment [of ?u seg] u by simp_all
    ultimately have "\<exists>s'. exec P pf [UndoClick, RouteDone i result status] s = Some s' \<and>
             startLatLng (app s') = Some st \<and>
             segments (app s') = butlast (segments (app s)) @ [seg] \<and>
             pathCoords (app s') = composePath_spec (Some st) (segments (app s'))"
      by simp
  }
  note after_undo = this
  {
    assume "status \<noteq> ''OK'' \<and> startLatLng (app s) = Some st \<and> segments (app s) \<noteq> []"
    then show "\<exists>s'. exec P pf [UndoClick, RouteDone i result status] s = Some s' \<and>
             startLatLng (app s') = Some st \<and>
             segments (app s') =
               butlast (segments (app s)) @ [\<lparr>coords = [origin ?r, destination ?r]\<rparr>] \<and>
             pathCoords (app s') = composePath_spec (Some st) (segments (app s'))"
      by (intro after_undo) (simp_all add: callback_not_ok)
  }
  {
    assume "status = ''OK'' \<and> result = Some res \<and> routes res = r0 # rs \<and> overview_path r0 \<noteq> [] \<and>
     startLatLng (app s) = Some st \<and> segments (app s) \<noteq> []"
    then show "\<exists>s'. exec P pf [UndoClick, RouteDone i result status] s = Some s' \<and>
             startLatLng (app s') = Some st \<and>
             segments (app s') = butlast (segments (app s)) @ [\<lparr>coords = overview_path r0\<rparr>] \<and>
             pathCoords (app s') = composePath_spec (Some st) (segments (app s'))"
      by (intro after_undo) (simp_all add: callback_ok_points)
  }
qed

theorem answer_after_reset_or_undo_witness:
  "exec errorDocumentParser zeroFloat [ResetClick, RouteDone 0 None ''ZERO_RESULTS'']
      \<lparr>app = appOneLeg\<lparr>lastPointLatLng := Some pointR\<rparr>,
       pending = [\<lparr>origin = pointQ, destination = pointR, travelMode = WALKING\<rparr>],
       hasMap = True\<rparr>
     = Some \<lparr>app = initApp\<lparr>segments := [\<lparr>coords = [pointQ, pointR]\<rparr>]\<rparr>, pending = [], hasMap = True\<rparr> \<and>
   exec errorDocumentParser zeroFloat [UndoClick, RouteDone 0 None ''ZERO_RESULTS'']
      \<lparr>app = appOneLeg\<lparr>lastPointLatLng := Some pointR\<rparr>,
       pending = [\<lparr>origin = pointQ, destination = pointR, travelMode = WALKING\<rparr>],
       hasMap = True\<rparr>
     = Some \<lparr>app = appStaleAfterUndo, pending = [], hasMap = True\<rparr> \<and>
   exec errorDocumentParser zeroFloat
      [ResetClick, RouteDone 0 (Some \<lparr>routes = [\<lparr>overview_path = [pointQ, pointR]\<rparr>]\<rparr>) ''OK'']
      \<lparr>app = appOneLeg\<lparr>lastPointLatLng := Some pointR\<rparr>,
       pending = [\<lparr>origin = pointQ, destination = pointR, travelMode = WALKING\<rparr>],
       hasMap = True\<rparr>
     = Some \<lparr>app = initApp\<lparr>segments := [\<lparr>coords = [pointQ, pointR]\<rparr>]\<rparr>, pending = [], hasMap = True\<rparr> \<and>
   exec errorDocumentParser zeroFloat
      [UndoClick, RouteDone 0 (Some \<lparr>routes = [\<lparr>overview_path = [pointQ, pointR]\<rparr>]\<rparr>) ''OK'']
      \<lparr>app = appOneLeg\<lparr>lastPointLatLng := Some pointR\<rparr>,
       pending = [\<lparr>origin = pointQ, destination = pointR, travelMode = WALKING\<rparr>],
       hasMap = True\<rparr>
     = Some \<lparr>app = appStaleAfterUndo, pending = [], hasMap = True\<rparr>"
  using answer_after_reset_or_undo
     [where i = 0 and status = "''ZERO_RESULTS''" and result = None and st = pointP
        and P = errorDocumentParser and pf = zeroFloat
        and s = "\<lparr>app = appOneLeg\<lparr>lastPointLatLng := Some pointR\<rparr>,
                 pending = [\<lparr>origin = pointQ, destination = pointR, travelMode = WALKING\<rparr>],
       hasMap = True\<rparr>"]
    answer_after_reset_or_undo
     [where i = 0 and status = "''OK''"
        and result = "Some \<lparr>routes = [\<lparr>overview_path = [pointQ, pointR]\<rparr>]\<rparr>"
        and res = "\<lparr>routes = [\<lparr>overview_path = [pointQ, pointR]\<rparr>]\<rparr>"
        and ?r0.0 = "\<lparr>overview_path = [pointQ, pointR]\<rparr>" and rs = "[]" and st = pointP
        and P = errorDocumentParser and pf = zeroFloat
        and s = "\<lparr>app = appOneLeg\<lparr>lastPointLatLng := Some pointR\<rparr>,
                 pending = [\<lparr>origin = pointQ, destination = pointR, travelMode = WALKING\<rparr>],
       hasMap = True\<rparr>"]
  by (simp add: ex_defs run_defs composePath_spec_def)

text \<open>
  C2 as stated fails. The request for the leg from \<open>pointP\<close> to \<open>pointQ\<close> is pending
  when the course is reset; its answer then turns the empty list of segments into a
  list of one segment. The request for the leg from \<open>pointQ\<close> to \<open>pointR\<close> is pending
  when the first leg is undone; its answer then appends a segment and changes the
  composed path from \<open>[pointP]\<close> to \<open>[pointP, pointR]\<close>.
\<close>

theorem stale_answer_changes_store:
  "exec errorDocumentParser zeroFloat
     [MapLoaded, MapClick ''running'' pointP, MapClick ''running'' pointQ, ResetClick] initSys
     = Some \<lparr>app = initApp,
             pending = [\<lparr>origin = pointP, destination = pointQ, travelMode = WALKING\<rparr>],
       hasMap = True\<rparr> \<and>
   exec errorDocumentParser zeroFloat
     [MapLoaded, MapClick ''running'' pointP, MapClick ''running'' pointQ, ResetClick,
      RouteDone 0 None ''ZERO_RESULTS''] initSys
     = Some \<lparr>app = appStaleLeg, pending = [], hasMap = True\<rparr> \<and>
   exec errorDocumentParser zeroFloat
     [MapLoaded, MapClick ''running'' pointP, MapClick ''running'' pointQ, RouteDone 0 None ''ZERO_RESULTS'',
      MapClick ''running'' pointR, UndoClick] initSys
     = Some \<lparr>app = appUndone,
             pending = [\<lparr>origin = pointQ, destination = pointR, travelMode = WALKING\<rparr>],
       hasMap = True\<rparr> \<and>
   exec errorDocumentParser zeroFloat
     [MapLoaded, MapClick ''running'' pointP, MapClick ''running'' pointQ, RouteDone 0 None ''ZERO_RESULTS'',
      MapClick ''running'' pointR, UndoClick, RouteDone 0 None ''ZERO_RESULTS''] initSys
     = Some \<lparr>app = appStaleAfterUndo, pending = [], hasMap = True\<rparr>"
  by (simp add: ex_defs run_defs)

section \<open>The start point and the list of segments\<close>

text \<open>
  C3, as the code has it. In every state reached from the empty page by clicks, answers,
  undos, resets and imports in any order, provided every answer arrives while the start
  is set: if the start point is absent then the list of segments is empty. (The converse
  does not hold: the start is set by the first click, before any segment exists.)
\<close>

theorem start_absent_segments_empty:
  assumes "exec P pf evs initSys = Some s"
    and "answersWithStart P pf evs initSys"
    and "startLatLng (app s) = None"
  shows "segments (app s) = []"
  using exec_start_segments [OF assms(1) assms(2)] assms(3)
  by (simp add: initSys_def initApp_def)

theorem start_absent_segments_empty_witness:
  "exec errorDocumentParser zeroFloat
     [MapLoaded, MapClick ''cycling'' pointP, MapClick ''cycling'' pointQ, RouteDone 0 None ''ZERO_RESULTS'',
      UndoClick, UndoClick] initSys = Some \<lparr>app = initApp,  pending = [], hasMap = True\<rparr> \<and>
   answersWithStart errorDocumentParser zeroFloat
     [MapLoaded, MapClick ''cycling'' pointP, MapClick ''cycling'' pointQ, RouteDone 0 None ''ZERO_RESULTS'',
      UndoClick, UndoClick] initSys \<and>
   startLatLng (initApp :: int App) = None \<and>
   segments (initApp :: int App) = []"
proof -
  let ?evs = "[MapLoaded, MapClick ''cycling'' pointP, MapClick ''cycling'' pointQ,
      RouteDone 0 None ''ZERO_RESULTS'', UndoClick, UndoClick]"
  have e: "exec errorDocumentParser zeroFloat ?evs initSys = Some \<lparr>app = initApp,  pending = [], hasMap = True\<rparr>"
    by (simp add: ex_defs run_defs)
  have a: "answersWithStart errorDocumentParser zeroFloat ?evs initSys"
    by (simp add: ex_defs run_defs)
  have n: "startLatLng (app \<lparr>app = (initApp :: int App), pending = [], hasMap = True\<rparr>) = None"
    by (simp add: initApp_def)
  from start_absent_segments_empty [OF e a n] e a n show ?thesis by simp
qed

text \<open>
  C3 as stated fails in both directions. After the first click the start is present and
  the list of segments is empty. After two clicks, a reset and the answer to the request
  of the second click, the start is absent and the list holds one segment.
\<close>

theorem start_iff_segments_fails:
  "exec errorDocumentParser zeroFloat [MapLoaded, MapClick ''running'' pointP] initSys
     = Some \<lparr>app = appStartOnly, pending = [], hasMap = True\<rparr> \<and>
   startLatLng appStartOnly = Some pointP \<and> segments appStartOnly = [] \<and>
   exec errorDocumentParser zeroFloat
     [MapLoaded, MapClick ''running'' pointP, MapClick ''running'' pointQ, ResetClick,
      RouteDone 0 None ''ZERO_RESULTS''] initSys
     = Some \<lparr>app = appStaleLeg, pending = [], hasMap = True\<rparr> \<and>
   startLatLng appStaleLeg = None \<and> segments appStaleLeg = [\<lparr>coords = [pointP, pointQ]\<rparr>]"
  by (simp add: ex_defs run_defs)

section \<open>The composed path\<close>

text \<open>
  Recomposition on any record: the path it stores is the composition of the stored start
  and segments, and when every stored segment has a point its length is 1 plus the sum
  over the segments of (segment length - 1) with a start, and 0 without one.
\<close>

lemma rebuild_composes:
  assumes "\<forall>seg \<in> set (segments a). coords seg \<noteq> []"
  shows "pathCoords (rebuildPathFromSegments a) = composePath_spec (startLatLng a) (segments a) \<and>
         int (length (pathCoords (rebuildPathFromSegments a))) =
           (case startLatLng a of
              None \<Rightarrow> 0
            | Some s \<Rightarrow> 1 + (\<Sum>seg\<leftarrow>segments a. int (length (coords seg)) - 1))"
proof (cases "startLatLng a")
  case None
  then show ?thesis by (simp add: rebuild_path composePath_spec_def)
next
  case (Some s)
  then show ?thesis
    using length_concat_tl [OF assms]
    by (simp add: rebuild_path composePath_spec_def)
qed

lemma composed_length:
  assumes "\<forall>seg \<in> set segs. coords seg \<noteq> []"
  shows "int (length (composePath_spec start segs)) =
           (case start of
              None \<Rightarrow> 0
            | Some s \<Rightarrow> 1 + (\<Sum>seg\<leftarrow>segs. int (length (coords seg)) - 1))"
  using length_concat_tl [OF assms]
  by (cases start) (simp_all add: composePath_spec_def)

text \<open>
  C4, as the code has it. Take any state reached from the empty page by operations in any
  order. If every answer of the routing service arrived while the start was set, then the
  path the store holds after the last operation is the start point followed by, for each
  segment in order, all of that segment's points except its first (every stored segment
  having a point), so its length is 1 plus the sum over the segments of (segment length
  - 1) with a start, and it is empty without one. With or without that proviso,
  recomposition in that state yields the path with these properties.
\<close>

theorem path_composed_in_runs:
  assumes "exec P pf evs initSys = Some s"
  shows
   "(answersWithStart P pf evs initSys \<longrightarrow>
       pathCoords (app s) = composePath_spec (startLatLng (app s)) (segments (app s)) \<and>
       int (length (pathCoords (app s))) =
         (case startLatLng (app s) of
            None \<Rightarrow> 0
          | Some p \<Rightarrow> 1 + (\<Sum>seg\<leftarrow>segments (app s). int (length (coords seg)) - 1))) \<and>
    pathCoords (rebuildPathFromSegments (app s)) =
      composePath_spec (startLatLng (app s)) (segments (app s)) \<and>
    int (length (pathCoords (rebuildPathFromSegments (app s)))) =
      (case startLatLng (app s) of
         None \<Rightarrow> 0
       | Some p \<Rightarrow> 1 + (\<Sum>seg\<leftarrow>segments (app s). int (length (coords seg)) - 1))"
proof -
  have ne: "\<forall>seg \<in> set (segments (app s)). coords seg \<noteq> []"
    using assms by (rule reachable_segments_nonempty)
  have len: "int (length (composePath_spec (startLatLng (app s)) (segments (app s)))) =
      (case startLatLng (app s) of
         None \<Rightarrow> 0
       | Some p \<Rightarrow> 1 + (\<Sum>seg\<leftarrow>segments (app s). int (length (coords seg)) - 1))"
    using ne by (rule composed_length)
  have stored: "pathCoords (app s) = composePath_spec (startLatLng (app s)) (segments (app s))"
    if "answersWithStart P pf evs initSys"
    using assms that by (rule reachable_path_composed)
  from rebuild_composes [OF ne] len stored show ?thesis by simp
qed

theorem path_composed_in_runs_witness:
  "exec errorDocumentParser zeroFloat
     [MapLoaded, MapClick ''running'' pointP, MapClick ''running'' pointQ,
      RouteDone 0 None ''ZERO_RESULTS'', MapClick ''running'' pointR,
      RouteDone 0 None ''ZERO_RESULTS''] initSys
     = Some \<lparr>app = appTwoLegs, pending = [], hasMap = True\<rparr> \<and>
   answersWithStart errorDocumentParser zeroFloat
     [MapLoaded, MapClick ''running'' pointP, MapClick ''running'' pointQ,
      RouteDone 0 None ''ZERO_RESULTS'', MapClick ''running'' pointR,
      RouteDone 0 None ''ZERO_RESULTS''] initSys \<and>
   pathCoords appTwoLegs = [pointP, pointQ, pointR] \<and>
   composePath_spec (startLatLng appTwoLegs) (segments appTwoLegs) = [pointP, pointQ, pointR] \<and>
   int (length (pathCoords appTwoLegs)) = 1 + ((2 - 1) + (2 - 1)) \<and>
   pathCoords (rebuildPathFromSegments appTwoLegs) = [pointP, pointQ, pointR]"
proof -
  let ?evs = "[MapLoaded, MapClick ''running'' pointP, MapClick ''running'' pointQ,
      RouteDone 0 None ''ZERO_RESULTS'', MapClick ''running'' pointR,
      RouteDone 0 None ''ZERO_RESULTS'']"
  have e: "exec errorDocumentParser zeroFloat ?evs initSys
             = Some \<lparr>app = appTwoLegs, pending = [], hasMap = True\<rparr>"
    by (simp add: ex_defs run_defs)
  have a: "answersWithStart errorDocumentParser zeroFloat ?evs initSys"
    by (simp add: ex_defs run_defs)
  have c: "composePath_spec (startLatLng appTwoLegs) (segments appTwoLegs)
             = [pointP, pointQ, pointR]"
    by (simp add: composePath_spec_def appTwoLegs_def)
  have l: "(\<Sum>seg\<leftarrow>segments appTwoLegs. int (length (coords seg)) - 1) = (2 - 1) + (2 - 1)"
    by (simp add: appTwoLegs_def)
  have st: "startLatLng appTwoLegs = Some pointP"
    by (simp add: appTwoLegs_def)
  from path_composed_in_runs [OF e] a c l st e show ?thesis by simp
qed

text \<open>
  C4 as stated fails after a first click that follows a late answer. The answer for the
  leg from \<open>pointP\<close> to \<open>pointQ\<close> arrives after a reset and is stored; the click on
  \<open>pointR\<close> then sets the start and assigns the path \<open>[pointR]\<close> without recomposing
  and without clearing the list of segments. The store holds a path of length 1, while
  the start followed by the segment's points except its first is \<open>[pointR, pointQ]\<close>,
  and 1 plus the sum of (segment length - 1) is 2.
\<close>

theorem path_not_composed_after_late_answer:
  "exec errorDocumentParser zeroFloat
     [MapLoaded, MapClick ''running'' pointP, MapClick ''running'' pointQ, ResetClick,
      RouteDone 0 None ''ZERO_RESULTS'', MapClick ''running'' pointR] initSys
     = Some \<lparr>app = appClickAfterStale, pending = [], hasMap = True\<rparr> \<and>
   pathCoords appClickAfterStale = [pointR] \<and>
   composePath_spec (startLatLng appClickAfterStale) (segments appClickAfterStale)
     = [pointR, pointQ] \<and>
   int (length (pathCoords appClickAfterStale)) = 1 \<and>
   1 + (\<Sum>seg\<leftarrow>segments appClickAfterStale. int (length (coords seg)) - 1) = 2"
  by (simp add: ex_defs run_defs composePath_spec_def)

section \<open>Undo\<close>

text \<open>
  C7, as the code has it. With the start set and a non-empty list of segments, undo
  removes exactly the last segment and recomposes the path. With the start set and no
  segment, undo yields the fully empty store, as reset does. Without a start, undo
  changes nothing (whatever the list of segments holds). In particular, from a store
  with the start and exactly one segment, one undo yields the start-only store and a
  second undo the fully empty store.
\<close>

theorem undoLastSegment_cases:
  "(startLatLng a = Some s \<and> segments a \<noteq> [] \<longrightarrow>
      startLatLng (undoLastSegment a) = Some s \<and>
      segments (undoLastSegment a) = butlast (segments a) \<and>
      pathCoords (undoLastSegment a) = composePath_spec (Some s) (butlast (segments a))) \<and>
   (startLatLng a = Some s \<and> segments a = [] \<longrightarrow>
      undoLastSegment a = resetCourse a \<and> undoLastSegment a = initApp) \<and>
   (startLatLng a = None \<longrightarrow> undoLastSegment a = a) \<and>
   (startLatLng a = Some s \<and> segments a = [seg] \<longrightarrow>
      startLatLng (undoLastSegment a) = Some s \<and>
      segments (undoLastSegment a) = [] \<and>
      pathCoords (undoLastSegment a) = [s] \<and>
      undoLastSegment (undoLastSegment a) = initApp)"
proof (intro conjI impI)
  assume h: "startLatLng a = Some s \<and> segments a \<noteq> []"
  then have u: "undoLastSegment a =
      redrawPolyline (rebuildPathFromSegments (a\<lparr>segments := butlast (segments a)\<rparr>))"
    by (simp add: undo_with_segments)
  from h show "startLatLng (undoLastSegment a) = Some s"
    by (simp add: u redraw_keeps rebuild_keeps)
  show "segments (undoLastSegment a) = butlast (segments a)"
    by (simp add: u redraw_keeps rebuild_keeps)
  from h show "pathCoords (undoLastSegment a) = composePath_spec (Some s) (butlast (segments a))"
    by (simp add: u redraw_keeps rebuild_path)
next
  assume h: "startLatLng a = Some s \<and> segments a = []"
  then show "undoLastSegment a = resetCourse a"
    by (simp add: undo_without_segments)
  from h show "undoLastSegment a = initApp"
    by (simp add: undo_without_segments resetCourse_init)
next
  assume "startLatLng a = None"
  then show "undoLastSegment a = a"
    by (simp add: undo_without_start)
next
  assume h: "startLatLng a = Some s \<and> segments a = [seg]"
  then have u: "undoLastSegment a =
      redrawPolyline (rebuildPathFromSegments (a\<lparr>segments := butlast (segments a)\<rparr>))"
    by (simp add: undo_with_segments)
  from h show 1: "startLatLng (undoLastSegment a) = Some s"
    by (simp add: u redraw_keeps rebuild_keeps)
  from h show 2: "segments (undoLastSegment a) = []"
    by (simp add: u redraw_keeps rebuild_keeps)
  from h show "pathCoords (undoLastSegment a) = [s]"
    by (simp add: u redraw_keeps rebuild_path composePath_spec_def)
  from 1 2 show "undoLastSegment (undoLastSegment a) = initApp"
    by (simp add: undo_without_segments resetCourse_init)
qed

text \<open>The cases of C7 on the example course: two legs, one leg, the start only, nothing.\<close>

theorem undoLastSegment_cases_witness:
  "undoLastSegment appTwoLegs = appOneLeg \<and>
   segments (undoLastSegment appOneLeg) = [] \<and>
   pathCoords (undoLastSegment appOneLeg) = [pointP] \<and>
   undoLastSegment (undoLastSegment appOneLeg) = initApp \<and>
   undoLastSegment appStartOnly = initApp \<and>
   undoLastSegment (initApp :: int App) = initApp"
  using undoLastSegment_cases [of appTwoLegs pointP]
    undoLastSegment_cases [of appOneLeg pointP "\<lparr>coords = [pointP, pointQ]\<rparr>"]
    undoLastSegment_cases [of appStartOnly pointP]
    undoLastSegment_cases [of "initApp :: int App"]
  by (simp add: ex_defs run_defs composePath_spec_def)

text \<open>
  C7 as stated fails on a store the page can reach. The answer for the leg from
  \<open>pointP\<close> to \<open>pointQ\<close> arrives after a reset and is appended; the list of segments
  is then non-empty while the start is absent, and undo does not remove the segment.
\<close>

theorem undo_keeps_stale_segment:
  "exec errorDocumentParser zeroFloat
     [MapLoaded, MapClick ''running'' pointP, MapClick ''running'' pointQ, ResetClick,
      RouteDone 0 None ''ZERO_RESULTS''] initSys
     = Some \<lparr>app = appStaleLeg, pending = [], hasMap = True\<rparr> \<and>
   segments appStaleLeg = [\<lparr>coords = [pointP, pointQ]\<rparr>] \<and>
   undoLastSegment appStaleLeg = appStaleLeg"
  by (simp add: ex_defs run_defs)

section \<open>Import of a text that is not well-formed\<close>

text \<open>
  C8 at a text that is not well-formed. The platform's parser does not throw for such a
  text, it returns the error document, so the \<open>catch\<close> branch is not taken: the
  import stops at the count of track points and shows the dialog for too few track
  points, not the one for a file that could not be read. The store is unchanged.
\<close>

theorem loadGpxFromText_not_well_formed:
  "loadGpxFromText errorDocumentParser parseFloat mapSet ''this is not a track document'' a
     = (a, AlertNoTrackPoints)"
  by (simp add: loadGpxFromText_def errorDocumentParser_def parsererrorDocument_def)

section \<open>What undo leaves alone\<close>

text \<open>
  C10. For every store whose list of segments is non-empty, undo leaves the start point
  (and its marker) unchanged, and every segment other than the last one stays at its
  place, unchanged.
\<close>

theorem undoLastSegment_frame:
  assumes "segments a \<noteq> []"
  shows "startLatLng (undoLastSegment a) = startLatLng a \<and>
         startMarker (undoLastSegment a) = startMarker a \<and>
         (\<forall>i. i < length (segments a) - 1 \<longrightarrow>
              i < length (segments (undoLastSegment a)) \<and>
              segments (undoLastSegment a) ! i = segments a ! i)"
proof (cases "startLatLng a")
  case None
  then show ?thesis by (auto simp: undo_without_start)
next
  case (Some s)
  with assms have u: "undoLastSegment a =
      redrawPolyline (rebuildPathFromSegments (a\<lparr>segments := butlast (segments a)\<rparr>))"
    by (simp add: undo_with_segments)
  show ?thesis
    by (simp add: u redraw_keeps rebuild_keeps nth_butlast)
qed

theorem undoLastSegment_frame_witness:
  "startLatLng (undoLastSegment appTwoLegs) = startLatLng appTwoLegs \<and>
   startMarker (undoLastSegment appTwoLegs) = startMarker appTwoLegs \<and>
   segments (undoLastSegment appTwoLegs) ! 0 = segments appTwoLegs ! 0"
  using undoLastSegment_frame [of appTwoLegs]
  by (simp add: ex_defs)

end
